theory Spec2Isabelle
  imports Complex_Main
begin

section \<open>Frontend: the audio store (Pinia store \<open>audio\<close>)\<close>

text \<open>
  The store keeps \<open>recentAudio\<close> (newest first), \<open>isProcessing\<close> and
  \<open>currentVolume\<close>. An entry is built from the clock (\<open>Date.now()\<close>, read twice) and
  from the length of the list at the moment of the call.
\<close>

record audio_entry =
  entry_id :: int
  entry_name :: string
  entry_url :: string
  entry_timestamp :: int

record audio_store =
  recentAudio :: "audio_entry list"
  isProcessing :: bool
  currentVolume :: int

definition audio_store_init :: audio_store where
  "audio_store_init = \<lparr>recentAudio = [], isProcessing = False, currentVolume = 80\<rparr>"

text \<open>Decimal rendering of a number, as a template literal does for \<open>length + 1\<close>.\<close>

fun string_of_nat :: "nat \<Rightarrow> string" where
  "string_of_nat n =
     (if n < 10 then [char_of (48 + n)]
      else string_of_nat (n div 10) @ [char_of (48 + n mod 10)])"

text \<open>\<open>Array.prototype.unshift\<close> and \<open>Array.prototype.pop\<close> (on the empty array
  \<open>pop\<close> leaves it empty).\<close>

definition unshift :: "'a \<Rightarrow> 'a list \<Rightarrow> 'a list" where
  "unshift x xs = x # xs"

definition pop :: "'a list \<Rightarrow> 'a list" where
  "pop xs = butlast xs"

definition new_entry :: "int \<Rightarrow> int \<Rightarrow> string \<Rightarrow> audio_store \<Rightarrow> audio_entry" where
  "new_entry now_id now_ts url s =
     \<lparr>entry_id = now_id,
      entry_name = ''Audio '' @ string_of_nat (length (recentAudio s) + 1),
      entry_url = url,
      entry_timestamp = now_ts\<rparr>"

definition addAudio :: "int \<Rightarrow> int \<Rightarrow> string \<Rightarrow> audio_store \<Rightarrow> audio_store" where
  "addAudio now_id now_ts url s =
     (let s1 = s\<lparr>recentAudio := unshift (new_entry now_id now_ts url s) (recentAudio s)\<rparr>
      in if length (recentAudio s1) > 10
         then s1\<lparr>recentAudio := pop (recentAudio s1)\<rparr>
         else s1)"

definition setIsProcessing :: "bool \<Rightarrow> audio_store \<Rightarrow> audio_store" where
  "setIsProcessing status s = s\<lparr>isProcessing := status\<rparr>"

definition setVolume :: "int \<Rightarrow> audio_store \<Rightarrow> audio_store" where
  "setVolume volume s = s\<lparr>currentVolume := volume\<rparr>"

text \<open>\<open>sendAudioData\<close>: set the flag, wait, add the entry, clear the flag in
  \<open>finally\<close>. Nothing in the \<open>try\<close> block throws, so the three updates run in order.\<close>

definition sendAudioData :: "int \<Rightarrow> int \<Rightarrow> string \<Rightarrow> audio_store \<Rightarrow> audio_store" where
  "sendAudioData now_id now_ts audioUrl s =
     setIsProcessing False (addAudio now_id now_ts audioUrl (setIsProcessing True s))"

datatype audio_action =
    AddAudio int int string
  | SetIsProcessing bool
  | SetVolume int
  | SendAudioData int int string

fun audio_act :: "audio_action \<Rightarrow> audio_store \<Rightarrow> audio_store" where
  "audio_act (AddAudio i t u) s = addAudio i t u s"
| "audio_act (SetIsProcessing b) s = setIsProcessing b s"
| "audio_act (SetVolume v) s = setVolume v s"
| "audio_act (SendAudioData i t u) s = sendAudioData i t u s"

fun audio_run :: "audio_action list \<Rightarrow> audio_store \<Rightarrow> audio_store" where
  "audio_run [] s = s"
| "audio_run (a # as) s = audio_run as (audio_act a s)"


section \<open>Frontend: the reconnecting WebSocket client (\<open>WebSocketService\<close>)\<close>

text \<open>
  The fields of the service that its reconnection logic reads and writes, the ready
  state of the socket held in \<open>this.ws\<close> (\<open>None\<close> is \<open>null\<close>), and the number of
  \<open>setTimeout\<close> callbacks that are scheduled and have not run yet.
\<close>

datatype ready_state = CONNECTING | OPEN | CLOSING | CLOSED

record ws_service =
  reconnectInterval :: nat
  maxReconnectAttempts :: nat
  reconnectAttempts :: nat
  ws :: "ready_state option"
  timers :: nat

text \<open>\<open>connect()\<close>: \<open>new WebSocket(url)\<close> either yields a socket in state CONNECTING,
  which replaces \<open>this.ws\<close>, or throws; the \<open>catch\<close> block then only reports the
  error and \<open>this.ws\<close> keeps its old value.\<close>

definition connect :: "bool \<Rightarrow> ws_service \<Rightarrow> ws_service" where
  "connect created s = (if created then s\<lparr>ws := Some CONNECTING\<rparr> else s)"

definition ws_constructor :: "bool \<Rightarrow> ws_service" where
  "ws_constructor created =
     connect created
       \<lparr>reconnectInterval = 5000, maxReconnectAttempts = 5, reconnectAttempts = 0,
        ws = None, timers = 0\<rparr>"

definition onopen :: "ws_service \<Rightarrow> ws_service" where
  "onopen s = s\<lparr>reconnectAttempts := 0\<rparr>"

text \<open>The callback handed to \<open>setTimeout\<close> by \<open>onclose\<close>.\<close>

definition reconnect_callback :: "bool \<Rightarrow> ws_service \<Rightarrow> ws_service" where
  "reconnect_callback created s =
     connect created (s\<lparr>reconnectAttempts := reconnectAttempts s + 1\<rparr>)"

definition onclose :: "ws_service \<Rightarrow> ws_service" where
  "onclose s =
     (if reconnectAttempts s < maxReconnectAttempts s
      then s\<lparr>timers := timers s + 1\<rparr>
      else s)"

text \<open>\<open>close()\<close>: \<open>this.ws.close()\<close> when there is a socket; a socket that is
  connecting or open starts closing, a closing or closed one is left as it is.\<close>

definition ws_close :: "ws_service \<Rightarrow> ws_service" where
  "ws_close s =
     (case ws s of
        None \<Rightarrow> s
      | Some CONNECTING \<Rightarrow> s\<lparr>ws := Some CLOSING\<rparr>
      | Some OPEN \<Rightarrow> s\<lparr>ws := Some CLOSING\<rparr>
      | Some _ \<Rightarrow> s)"

text \<open>
  What the browser and the caller can do to the service. A socket fires \<open>open\<close> only
  while it is connecting and \<open>close\<close> only once, when it is not closed yet; a timer
  callback runs only if one is pending (\<open>TimerFires created\<close> says whether the socket
  constructor it calls succeeds). An event that cannot happen in the current state yields
  \<open>None\<close>. \<open>connect()\<close> is called by the constructor and by the timer callback
  only, as in the source, and the listeners added with \<open>on\<close> leave the fields of the
  service alone.
\<close>

datatype ws_event = SocketOpens | SocketCloses | TimerFires bool | CallClose

fun ws_step :: "ws_event \<Rightarrow> ws_service \<Rightarrow> ws_service option" where
  "ws_step SocketOpens s =
     (if ws s = Some CONNECTING then Some (onopen (s\<lparr>ws := Some OPEN\<rparr>)) else None)"
| "ws_step SocketCloses s =
     (if ws s = Some CONNECTING \<or> ws s = Some OPEN \<or> ws s = Some CLOSING
      then Some (onclose (s\<lparr>ws := Some CLOSED\<rparr>)) else None)"
| "ws_step (TimerFires created) s =
     (if timers s > 0
      then Some (reconnect_callback created (s\<lparr>timers := timers s - 1\<rparr>)) else None)"
| "ws_step CallClose s = Some (ws_close s)"

fun ws_run :: "ws_event list \<Rightarrow> ws_service \<Rightarrow> ws_service option" where
  "ws_run [] s = Some s"
| "ws_run (e # es) s = (case ws_step e s of None \<Rightarrow> None | Some s' \<Rightarrow> ws_run es s')"

fun is_reconnect :: "ws_event \<Rightarrow> bool" where
  "is_reconnect (TimerFires _) = True"
| "is_reconnect _ = False"

definition reconnects :: "ws_event list \<Rightarrow> nat" where
  "reconnects es = length (filter is_reconnect es)"


section \<open>Backend: the WebSocket handler\<close>

subsection \<open>Configuration and messages\<close>

record LLMConfig =
  llm_Provider :: string
  llm_Model :: string
  llm_BaseURL :: string
  llm_APIKey :: string

record ASRConfig =
  asr_Provider :: string
  asr_Model :: string

record TTSConfig =
  tts_Provider :: string
  tts_Voice :: string

record VADConfig =
  vad_Provider :: string

record SystemConfig =
  MaxConnections :: int
  BufferSize :: int

record Config =
  Host :: string
  Port :: string
  Debug :: bool
  LLM :: LLMConfig
  ASR :: ASRConfig
  TTS :: TTSConfig
  VAD :: VADConfig
  System :: SystemConfig

text \<open>A value held in an \<open>interface{}\<close>: what a decoded JSON payload or a payload
  built by the handler can be.\<close>

datatype gval =
    GNil
  | GBool bool
  | GInt int
  | GFloat real
  | GStr string
  | GList "gval list"
  | GMap "(string \<times> gval) list"
  | GLLM LLMConfig
  | GASR ASRConfig
  | GTTS TTSConfig

record Message =
  Type :: string
  Data :: gval

text \<open>Text that is not ASCII in the source is kept as its UTF-8 bytes.\<close>

definition utf8 :: "nat list \<Rightarrow> string" where
  "utf8 bs = map char_of bs"

subsection \<open>The handler and its connections\<close>

text \<open>
  A connection is identified by its pointer. Beside the \<open>clients\<close> map of the handler,
  the state records what the handler does to the outside: the connections it has closed,
  the frames it has written (oldest first) and the lines it has logged. \<open>failing\<close> is
  the part of the environment that decides a write: \<open>WriteJSON\<close> returns an error on a
  connection that is in \<open>failing\<close> or has been closed.
\<close>

type_synonym conn = nat

datatype logentry =
    LogUpgradeFailed
  | LogReadFailed
  | LogUnknownType string
  | LogTextInput gval
  | LogAudioData
  | LogSendFailed
  | LogConnected nat
  | LogDisconnected nat
  | LogBroadcastFailed

record hstate =
  config :: Config
  clients :: "conn \<rightharpoonup> bool"
  closed :: "conn set"
  failing :: "conn set"
  sent :: "(conn \<times> Message) list"
  logs :: "logentry list"

definition log_printf :: "logentry \<Rightarrow> hstate \<Rightarrow> hstate" where
  "log_printf l s = s\<lparr>logs := logs s @ [l]\<rparr>"

definition conn_Close :: "conn \<Rightarrow> hstate \<Rightarrow> hstate" where
  "conn_Close c s = s\<lparr>closed := insert c (closed s)\<rparr>"

definition write_fails :: "hstate \<Rightarrow> conn \<Rightarrow> bool" where
  "write_fails s c = (c \<in> failing s \<or> c \<in> closed s)"

text \<open>\<open>conn.WriteJSON(msg)\<close>: the flag is \<open>err != nil\<close>.\<close>

definition WriteJSON :: "conn \<Rightarrow> Message \<Rightarrow> hstate \<Rightarrow> bool \<times> hstate" where
  "WriteJSON c m s =
     (if write_fails s c then (True, s) else (False, s\<lparr>sent := sent s @ [(c, m)]\<rparr>))"

definition sendToClient :: "conn \<Rightarrow> Message \<Rightarrow> hstate \<Rightarrow> hstate" where
  "sendToClient c m s =
     (case WriteJSON c m s of
        (True, s') \<Rightarrow> conn_Close c (log_printf LogSendFailed s')
      | (False, s') \<Rightarrow> s')"

definition llm_response :: Message where
  "llm_response =
     \<lparr>Type = ''llm-response'',
      Data = GMap
        [(''text'', GStr (utf8 [232, 191, 153, 230, 152, 175, 230, 168, 161, 230, 139, 159,
            231, 154, 132, 76, 76, 77, 229, 147, 141, 229, 186, 148])),
         (''audioUrl'', GStr [])]\<rparr>"

definition processTextInput :: "conn \<Rightarrow> gval \<Rightarrow> hstate \<Rightarrow> hstate" where
  "processTextInput c d s = sendToClient c llm_response (log_printf (LogTextInput d) s)"

definition init_config_response :: Message where
  "init_config_response =
     \<lparr>Type = ''set-model-and-conf'',
      Data = GMap
        [(''model_info'', GMap
           [(''name'', GStr ''mao_pro''),
            (''url'', GStr ''/live2d-models/mao_pro/runtime/mao_pro.model3.json''),
            (''kScale'', GFloat (1 / 2)),
            (''initialXshift'', GInt 0),
            (''initialYshift'', GInt 0),
            (''kXOffset'', GInt 1150),
            (''idleMotionGroupName'', GStr ''Idle''),
            (''emotionMap'', GMap
               [(''neutral'', GInt 0), (''anger'', GInt 2), (''disgust'', GInt 2),
                (''fear'', GInt 1), (''joy'', GInt 3), (''smirk'', GInt 3),
                (''sadness'', GInt 1), (''surprise'', GInt 3)]),
            (''tapMotions'', GMap
               [(''HitAreaHead'', GMap [([], GInt 1)]),
                (''HitAreaBody'', GMap [([], GInt 1)])])]),
         (''conf_name'', GStr ''default''),
         (''conf_uid'', GStr ''default-uid''),
         (''client_uid'', GStr ''client-uid-placeholder'')]\<rparr>"

definition sendInitConfig :: "conn \<Rightarrow> hstate \<Rightarrow> hstate" where
  "sendInitConfig c s = sendToClient c init_config_response s"

text \<open>The handler's \<open>processAudioData\<close> (the one of the WebSocket handler): it logs and
  does nothing else.\<close>

definition ws_processAudioData :: "gval \<Rightarrow> hstate \<Rightarrow> hstate" where
  "ws_processAudioData d s = log_printf LogAudioData s"

definition configs_response :: "Config \<Rightarrow> Message" where
  "configs_response cfg =
     \<lparr>Type = ''configs'',
      Data = GMap [(''llm'', GLLM (LLM cfg)), (''asr'', GASR (ASR cfg)), (''tts'', GTTS (TTS cfg))]\<rparr>"

definition sendConfigs :: "conn \<Rightarrow> hstate \<Rightarrow> hstate" where
  "sendConfigs c s = sendToClient c (configs_response (config s)) s"

text \<open>The \<open>switch\<close> of \<open>handleMessage\<close>: which branch a type selects, and the branch
  run on the message.\<close>

datatype handler =
    ProcessTextInput
  | ProcessAudioData
  | SendConfigs
  | SendInitConfig
  | DefaultLog

definition handler_of :: "string \<Rightarrow> handler" where
  "handler_of t =
     (if t = ''text-input'' then ProcessTextInput
      else if t = ''mic-audio-data'' then ProcessAudioData
      else if t = ''fetch-configs'' then SendConfigs
      else if t = ''request-init-config'' then SendInitConfig
      else DefaultLog)"

definition handleMessage :: "conn \<Rightarrow> Message \<Rightarrow> hstate \<Rightarrow> hstate" where
  "handleMessage c msg s =
     (case handler_of (Type msg) of
        ProcessTextInput \<Rightarrow> processTextInput c (Data msg) s
      | ProcessAudioData \<Rightarrow> ws_processAudioData (Data msg) s
      | SendConfigs \<Rightarrow> sendConfigs c s
      | SendInitConfig \<Rightarrow> sendInitConfig c s
      | DefaultLog \<Rightarrow> log_printf (LogUnknownType (Type msg)) s)"

subsection \<open>The client registry (\<open>handleClients\<close>)\<close>

definition register :: "conn \<Rightarrow> hstate \<Rightarrow> hstate" where
  "register c s =
     (let s1 = s\<lparr>clients := (clients s)(c \<mapsto> True)\<rparr>
      in log_printf (LogConnected (card (dom (clients s1)))) s1)"

definition unregister :: "conn \<Rightarrow> hstate \<Rightarrow> hstate" where
  "unregister c s =
     (let s1 = (if clients s c \<noteq> None
                then conn_Close c (s\<lparr>clients := (clients s)(c := None)\<rparr>)
                else s)
      in log_printf (LogDisconnected (card (dom (clients s1)))) s1)"

text \<open>
  The broadcast branch ranges over the \<open>clients\<close> map and deletes the entry it is at
  when the write fails. Go fixes no order for the range; \<open>order\<close> is the order this
  run of the loop takes, each key held by the map at its start once.
\<close>

fun broadcast_loop :: "Message \<Rightarrow> conn list \<Rightarrow> hstate \<Rightarrow> hstate" where
  "broadcast_loop m [] s = s"
| "broadcast_loop m (c # cs) s =
     broadcast_loop m cs
       (case WriteJSON c m s of
          (True, s') \<Rightarrow>
            conn_Close c
              ((log_printf LogBroadcastFailed s')\<lparr>clients := (clients s')(c := None)\<rparr>)
        | (False, s') \<Rightarrow> s')"

datatype hub_event = Register conn | Unregister conn | Broadcast Message "conn list"

fun handleClients_step :: "hub_event \<Rightarrow> hstate \<Rightarrow> hstate" where
  "handleClients_step (Register c) s = register c s"
| "handleClients_step (Unregister c) s = unregister c s"
| "handleClients_step (Broadcast m order) s = broadcast_loop m order s"

fun handleClients :: "hub_event list \<Rightarrow> hstate \<Rightarrow> hstate" where
  "handleClients [] s = s"
| "handleClients (e # es) s = handleClients es (handleClients_step e s)"

subsection \<open>The read loop (\<open>HandleWebSocket\<close>)\<close>

text \<open>
  What one \<open>conn.ReadJSON(&msg)\<close> can return: an error, because the frame does not
  decode into a \<open>Message\<close> or because the transport failed, or a decoded message.
  The loop is run on the reads that have returned so far; the flag of the result is
  whether the loop has been left (otherwise the handler is waiting in the next read).
\<close>

datatype read_result = Undecodable | TransportError | Decoded Message

fun read_loop :: "conn \<Rightarrow> read_result list \<Rightarrow> hstate \<Rightarrow> hstate \<times> bool" where
  "read_loop c [] s = (s, False)"
| "read_loop c (Decoded msg # rs) s = read_loop c rs (handleMessage c msg s)"
| "read_loop c (_ # rs) s = (log_printf LogReadFailed s, True)"

text \<open>\<open>upgrade\<close> is the result of \<open>upgrader.Upgrade\<close>. The deferred calls run when the
  loop is left, last deferred first: the unregistration, then \<open>conn.Close()\<close>.\<close>

definition HandleWebSocket :: "conn option \<Rightarrow> read_result list \<Rightarrow> hstate \<Rightarrow> hstate" where
  "HandleWebSocket upgrade reads s =
     (case upgrade of
        None \<Rightarrow> log_printf LogUpgradeFailed s
      | Some c \<Rightarrow>
          (case read_loop c reads (register c s) of
             (s', True) \<Rightarrow> conn_Close c (unregister c s')
           | (s', False) \<Rightarrow> s'))"

text \<open>The frames written to one connection, and their types, in order.\<close>

definition frames_to :: "conn \<Rightarrow> hstate \<Rightarrow> Message list" where
  "frames_to c s = map snd (filter (\<lambda>p. fst p = c) (sent s))"

definition types_to :: "conn \<Rightarrow> hstate \<Rightarrow> string list" where
  "types_to c s = map Type (frames_to c s)"

definition default_Config :: Config where
  "default_Config =
     \<lparr>Host = ''localhost'', Port = ''8080'', Debug = False,
      LLM = \<lparr>llm_Provider = [], llm_Model = [], llm_BaseURL = [], llm_APIKey = []\<rparr>,
      ASR = \<lparr>asr_Provider = [], asr_Model = []\<rparr>,
      TTS = \<lparr>tts_Provider = [], tts_Voice = []\<rparr>,
      VAD = \<lparr>vad_Provider = []\<rparr>,
      System = \<lparr>MaxConnections = 1000, BufferSize = 1024\<rparr>\<rparr>"

text \<open>\<open>NewWebSocketHandler\<close>: no client yet.\<close>

definition NewWebSocketHandler :: "Config \<Rightarrow> hstate" where
  "NewWebSocketHandler cfg =
     \<lparr>config = cfg, clients = Map.empty, closed = {}, failing = {}, sent = [], logs = []\<rparr>"


section \<open>Backend: the audio handler\<close>



















section \<open>The reply the specification describes\<close>

text \<open>
  The specification's order of events for a text input, over the types of the frames a
  client receives: any number of \<open>llm-partial\<close>, one \<open>llm-final\<close>, any number of
  \<open>tts-chunk\<close>, one \<open>tts-done\<close>, and nothing else.
\<close>

definition spec_reply_shape :: "string list \<Rightarrow> bool" where
  "spec_reply_shape ts =
     (case dropWhile (\<lambda>t. t = ''llm-partial'') ts of
        [] \<Rightarrow> False
      | t # rest \<Rightarrow> t = ''llm-final'' \<and> dropWhile (\<lambda>t. t = ''tts-chunk'') rest = [''tts-done''])"

text \<open>The fifteen inbound types the specification lists.\<close>

definition spec_inbound_types :: "string list" where
  "spec_inbound_types =
     [''mic-audio-data'', ''mic-audio-end'', ''text-input'', ''ai-speak-signal'',
      ''interrupt-signal'', ''fetch-history-list'', ''fetch-and-set-history'',
      ''create-new-history'', ''delete-history'', ''heartbeat'', ''add-client-to-group'',
      ''remove-client-from-group'', ''request-group-info'', ''request-init-config'',
      ''fetch-configs'']"

text \<open>The types \<open>handleMessage\<close> has a case for.\<close>

definition handled_types :: "string list" where
  "handled_types = [''text-input'', ''mic-audio-data'', ''fetch-configs'', ''request-init-config'']"

text \<open>Concrete states and frames used below.\<close>

definition h0 :: hstate where
  "h0 = NewWebSocketHandler default_Config"

definition text_hello :: Message where
  "text_hello = \<lparr>Type = ''text-input'', Data = GMap [(''text'', GStr ''hello'')]\<rparr>"


definition heartbeat_frame :: Message where
  "heartbeat_frame = \<lparr>Type = ''heartbeat'', Data = GNil\<rparr>"

definition foo_frame :: Message where
  "foo_frame = \<lparr>Type = ''foo'', Data = GNil\<rparr>"

text \<open>The service after its first socket has opened and closed, and after five
  reconnections have failed.\<close>

definition ws_closed_once :: ws_service where
  "ws_closed_once = \<lparr>reconnectInterval = 5000, maxReconnectAttempts = 5,
     reconnectAttempts = 0, ws = Some CLOSED, timers = 1\<rparr>"

definition ws_gave_up :: ws_service where
  "ws_gave_up = \<lparr>reconnectInterval = 5000, maxReconnectAttempts = 5,
     reconnectAttempts = 5, ws = Some CLOSED, timers = 0\<rparr>"

definition five_retries :: "ws_event list" where
  "five_retries = [TimerFires True, SocketCloses, TimerFires True, SocketCloses,
     TimerFires True, SocketCloses, TimerFires True, SocketCloses, TimerFires True, SocketCloses]"

text \<open>What holds of the service in every state it can reach: at most one callback is
  pending, and only while the socket is closed and the counter is below the maximum.\<close>

definition ws_inv :: "ws_service \<Rightarrow> bool" where
  "ws_inv s =
     (maxReconnectAttempts s = 5 \<and> reconnectAttempts s \<le> 5 \<and> timers s \<le> 1 \<and>
      (timers s = 1 \<longrightarrow> reconnectAttempts s < 5 \<and> ws s = Some CLOSED))"


text \<open>Three registered clients, the second of which cannot be written to.\<close>

definition h3 :: hstate where
  "h3 = handleClients [Register 1, Register 2, Register 3] (h0\<lparr>failing := {2}\<rparr>)"


definition mic_frame :: Message where
  "mic_frame = \<lparr>Type = ''mic-audio-data'', Data = GNil\<rparr>"

definition full_store :: audio_store where
  "full_store = audio_run (replicate 10 (AddAudio 0 0 ''a.mp3'')) audio_store_init"


section \<open>Properties of the audio store\<close>

lemma recentAudio_addAudio:
  assumes "length (recentAudio s) \<le> 10"
  shows "recentAudio (addAudio i t u s) = take 10 (new_entry i t u s # recentAudio s)"
proof (cases "length (recentAudio s) = 10")
  case True
  then have "butlast (new_entry i t u s # recentAudio s)
      = take 10 (new_entry i t u s # recentAudio s)"
    by (simp add: butlast_conv_take)
  with True show ?thesis
    by (simp add: addAudio_def unshift_def pop_def Let_def)
next
  case False
  with assms have "length (recentAudio s) < 10" by simp
  then show ?thesis
    by (simp add: addAudio_def unshift_def pop_def Let_def)
qed

lemma recentAudio_audio_act_bound:
  "length (recentAudio s) \<le> 10 \<Longrightarrow> length (recentAudio (audio_act a s)) \<le> 10"
  by (cases a)
     (simp_all add: recentAudio_addAudio setIsProcessing_def setVolume_def sendAudioData_def)

text \<open>
  Claim C10. Starting from a list of at most 10 entries, \<open>addAudio\<close> puts the new entry
  at index 0 and drops the last entry exactly when the list would otherwise hold 11;
  every store action, and so every run of actions, keeps the list at 10 entries or fewer,
  and after \<open>addAudio\<close> the entry just added is first.
\<close>

theorem audio_store_bounded:
  assumes "length (recentAudio s) \<le> 10"
  shows "recentAudio (addAudio i t u s) =
           (if length (recentAudio s) < 10
            then new_entry i t u s # recentAudio s
            else new_entry i t u s # butlast (recentAudio s))
       \<and> recentAudio (addAudio i t u s) ! 0 = new_entry i t u s
       \<and> length (recentAudio (audio_act a s)) \<le> 10
       \<and> length (recentAudio (audio_run as s)) \<le> 10"
proof -
  have run: "length (recentAudio (audio_run as s0)) \<le> 10"
    if "length (recentAudio s0) \<le> 10" for s0
    using that by (induction as arbitrary: s0) (simp_all add: recentAudio_audio_act_bound)
  have "recentAudio (addAudio i t u s) = take 10 (new_entry i t u s # recentAudio s)"
    using assms by (rule recentAudio_addAudio)
  moreover have "take 10 (new_entry i t u s # recentAudio s) =
      (if length (recentAudio s) < 10
       then new_entry i t u s # recentAudio s
       else new_entry i t u s # butlast (recentAudio s))"
    using assms by (simp add: butlast_conv_take)
  ultimately show ?thesis
    using assms run [of s] by (simp add: recentAudio_audio_act_bound)
qed

lemma full_store_length: "length (recentAudio full_store) = 10"
  unfolding full_store_def by code_simp

theorem audio_store_bounded_witness:
  "length (recentAudio full_store) \<le> 10
   \<and> recentAudio (addAudio 1 2 ''b.mp3'' full_store) =
       new_entry 1 2 ''b.mp3'' full_store # butlast (recentAudio full_store)
   \<and> entry_name (recentAudio (addAudio 1 2 ''b.mp3'' full_store) ! 0) = ''Audio 11''
   \<and> length (recentAudio (audio_act (SendAudioData 3 4 ''c.mp3'') full_store)) \<le> 10
   \<and> length (recentAudio (audio_run [SetVolume 5, AddAudio 5 6 ''d.mp3''] full_store)) \<le> 10"
proof -
  have h: "length (recentAudio full_store) \<le> 10"
    by (simp add: full_store_length)
  have n: "entry_name (new_entry 1 2 ''b.mp3'' full_store) = ''Audio 11''"
    by code_simp
  from audio_store_bounded [OF h, of 1 2 "''b.mp3''" "SendAudioData 3 4 ''c.mp3''"
      "[SetVolume 5, AddAudio 5 6 ''d.mp3'']"] h n
  show ?thesis by (simp add: full_store_length)
qed

section \<open>Properties of the reconnecting client\<close>

lemma ws_inv_init: "ws_inv (ws_constructor created)"
  by (simp add: ws_inv_def ws_constructor_def connect_def)

lemma ws_inv_step:
  assumes "ws_inv s" "ws_step e s = Some s'"
  shows "ws_inv s'"
proof (cases e)
  case SocketOpens
  with assms show ?thesis
    by (auto simp: ws_inv_def onopen_def split: if_splits)
next
  case SocketCloses
  with assms show ?thesis
    by (auto simp: ws_inv_def onclose_def split: if_splits)
next
  case (TimerFires created)
  with assms show ?thesis
    by (auto simp: ws_inv_def reconnect_callback_def connect_def split: if_splits)
next
  case CallClose
  with assms show ?thesis
    by (auto simp: ws_inv_def ws_close_def split: option.splits ready_state.splits)
qed

lemma ws_inv_run: "ws_inv s \<Longrightarrow> ws_run es s = Some s' \<Longrightarrow> ws_inv s'"
proof (induction es arbitrary: s)
  case Nil
  then show ?case by simp
next
  case (Cons e es)
  then show ?case
    by (auto split: option.splits dest: ws_inv_step)
qed

lemma attempts_step:
  assumes "ws_step e s = Some s'" "e \<noteq> SocketOpens"
  shows "reconnectAttempts s' = reconnectAttempts s + (if is_reconnect e then 1 else 0)"
  using assms
  by (cases e)
     (auto simp: onclose_def reconnect_callback_def connect_def ws_close_def
           split: if_splits option.splits ready_state.splits)

lemma attempts_run:
  "ws_run es s = Some s' \<Longrightarrow> SocketOpens \<notin> set es \<Longrightarrow>
     reconnectAttempts s' = reconnectAttempts s + reconnects es"
proof (induction es arbitrary: s)
  case Nil
  then show ?case by (simp add: reconnects_def)
next
  case (Cons e es)
  from Cons.prems obtain s1 where s1: "ws_step e s = Some s1" "ws_run es s1 = Some s'"
    by (auto split: option.splits)
  from Cons.prems have "e \<noteq> SocketOpens" "SocketOpens \<notin> set es" by auto
  with s1 Cons.IH [of s1] attempts_step [of e s s1] show ?case
    by (simp add: reconnects_def)
qed

text \<open>
  Claim C9. In every state the service reaches, \<open>onclose\<close> schedules a reconnection
  exactly when \<open>reconnectAttempts\<close> is below \<open>maxReconnectAttempts\<close>, which is 5;
  the scheduled callback adds one to the counter and \<open>onopen\<close> resets it to 0. Hence
  a stretch of events in which no socket opens holds at most 5 reconnections.
\<close>

theorem reconnect_bounded:
  assumes "ws_run pre (ws_constructor created) = Some s"
    and "ws_run seg s = Some s'"
    and "SocketOpens \<notin> set seg"
  shows "reconnects seg \<le> 5
       \<and> maxReconnectAttempts s = 5
       \<and> (timers s < timers (onclose s)) = (reconnectAttempts s < maxReconnectAttempts s)
       \<and> reconnectAttempts (reconnect_callback b s) = reconnectAttempts s + 1
       \<and> reconnectAttempts (onopen s) = 0"
proof -
  have inv: "ws_inv s"
    using ws_inv_init assms(1) by (rule ws_inv_run)
  then have "ws_inv s'"
    using assms(2) by (rule ws_inv_run)
  then have "reconnectAttempts s' \<le> 5"
    by (simp add: ws_inv_def)
  moreover have "reconnectAttempts s' = reconnectAttempts s + reconnects seg"
    using assms(2,3) by (rule attempts_run)
  ultimately have "reconnects seg \<le> 5" by simp
  moreover have "maxReconnectAttempts s = 5"
    using inv by (simp add: ws_inv_def)
  ultimately show ?thesis
    by (simp add: onclose_def reconnect_callback_def connect_def onopen_def)
qed

theorem reconnect_bounded_witness:
  "ws_run [SocketOpens, SocketCloses] (ws_constructor True) = Some ws_closed_once
   \<and> ws_run five_retries ws_closed_once = Some ws_gave_up
   \<and> SocketOpens \<notin> set five_retries
   \<and> reconnects five_retries \<le> 5
   \<and> ws_run (five_retries @ [TimerFires True]) ws_closed_once = None"
proof -
  have a: "ws_run [SocketOpens, SocketCloses] (ws_constructor True) = Some ws_closed_once"
    by (simp add: ws_constructor_def connect_def onopen_def onclose_def ws_closed_once_def)
  have b: "ws_run five_retries ws_closed_once = Some ws_gave_up"
    by (simp add: five_retries_def ws_closed_once_def ws_gave_up_def reconnect_callback_def
        connect_def onclose_def)
  have c: "SocketOpens \<notin> set five_retries"
    by (simp add: five_retries_def)
  have d: "ws_run (five_retries @ [TimerFires True]) ws_closed_once = None"
    by (simp add: five_retries_def ws_closed_once_def reconnect_callback_def
        connect_def onclose_def)
  from reconnect_bounded [OF a b c] a b c d show ?thesis by simp
qed

section \<open>Properties of the WebSocket handler\<close>

subsection \<open>Helper facts\<close>

lemma h0_fields:
  "sent h0 = []" "logs h0 = []" "closed h0 = {}" "failing h0 = {}" "clients h0 = Map.empty"
  by (simp_all add: h0_def NewWebSocketHandler_def)

lemma sendToClient_eq:
  "sendToClient c m s =
     (if write_fails s c
      then s\<lparr>closed := insert c (closed s), logs := logs s @ [LogSendFailed]\<rparr>
      else s\<lparr>sent := sent s @ [(c, m)]\<rparr>)"
  by (simp add: sendToClient_def WriteJSON_def conn_Close_def log_printf_def)

lemma handler_of_unhandled:
  "t \<notin> set handled_types \<Longrightarrow> handler_of t = DefaultLog"
  by (simp add: handled_types_def handler_of_def)

lemma handleMessage_unhandled:
  "Type msg \<notin> set handled_types \<Longrightarrow>
     handleMessage c msg s = log_printf (LogUnknownType (Type msg)) s"
  by (simp add: handleMessage_def handler_of_unhandled)




lemma read_loop_decoded_prefix:
  "read_loop c (map Decoded ms @ rs) s = read_loop c rs (foldl (\<lambda>s m. handleMessage c m s) s ms)"
  by (induction ms arbitrary: s) simp_all

lemma unregister_gone: "clients (unregister c s) c = None"
  by (simp add: unregister_def log_printf_def conn_Close_def Let_def)

lemma broadcast_loop_effect:
  assumes "distinct cs"
  shows "clients (broadcast_loop m cs s) =
           (\<lambda>c. if c \<in> set cs \<and> write_fails s c then None else clients s c)
       \<and> closed (broadcast_loop m cs s) = closed s \<union> {c \<in> set cs. write_fails s c}
       \<and> failing (broadcast_loop m cs s) = failing s
       \<and> (\<forall>c. frames_to c (broadcast_loop m cs s) =
              frames_to c s @ (if c \<in> set cs \<and> \<not> write_fails s c then [m] else []))"
  using assms
proof (induction cs arbitrary: s)
  case Nil
  then show ?case by simp
next
  case (Cons c0 cs)
  define s1 where "s1 =
    (case WriteJSON c0 m s of
       (True, s') \<Rightarrow>
         conn_Close c0 ((log_printf LogBroadcastFailed s')\<lparr>clients := (clients s')(c0 := None)\<rparr>)
     | (False, s') \<Rightarrow> s')"
  have step: "broadcast_loop m (c0 # cs) s = broadcast_loop m cs s1"
    by (simp add: s1_def)
  from Cons.prems have d: "distinct cs" and n: "c0 \<notin> set cs" by simp_all
  have wf: "write_fails s1 c = write_fails s c" if "c \<in> set cs" for c
    using that n
    by (auto simp: s1_def WriteJSON_def write_fails_def conn_Close_def log_printf_def)
  have cl: "clients s1 = (\<lambda>c. if c = c0 \<and> write_fails s c then None else clients s c)"
    by (auto simp: s1_def WriteJSON_def conn_Close_def log_printf_def)
  have cd: "closed s1 = closed s \<union> {c. c = c0 \<and> write_fails s c}"
    by (auto simp: s1_def WriteJSON_def conn_Close_def log_printf_def)
  have fl: "failing s1 = failing s"
    by (auto simp: s1_def WriteJSON_def conn_Close_def log_printf_def)
  have fr: "frames_to c s1 = frames_to c s @ (if c = c0 \<and> \<not> write_fails s c then [m] else [])"
    for c
    by (auto simp: s1_def WriteJSON_def conn_Close_def log_printf_def frames_to_def)
  note IH = Cons.IH [OF d, of s1]
  have 1: "clients (broadcast_loop m (c0 # cs) s) =
           (\<lambda>c. if c \<in> set (c0 # cs) \<and> write_fails s c then None else clients s c)"
    unfolding step using IH cl wf by (auto simp: fun_eq_iff)
  have 2: "closed (broadcast_loop m (c0 # cs) s) =
      closed s \<union> {c \<in> set (c0 # cs). write_fails s c}"
    unfolding step using IH cd wf by auto
  have 3: "failing (broadcast_loop m (c0 # cs) s) = failing s"
    unfolding step using IH fl by simp
  have 4: "frames_to c (broadcast_loop m (c0 # cs) s) =
              frames_to c s @ (if c \<in> set (c0 # cs) \<and> \<not> write_fails s c then [m] else [])"
    for c
  proof -
    from IH have "frames_to c (broadcast_loop m cs s1) =
        frames_to c s1 @ (if c \<in> set cs \<and> \<not> write_fails s1 c then [m] else [])"
      by blast
    then show ?thesis
      unfolding step using fr [of c] wf [of c] n by auto
  qed
  from 1 2 3 4 show ?case by blast
qed

lemma h3_fields:
  "dom (clients h3) = {1, 2, 3}" "closed h3 = {}" "failing h3 = {2}" "sent h3 = []"
  by (auto simp: h3_def register_def log_printf_def Let_def h0_fields)



subsection \<open>Interrupt signals\<close>



subsection \<open>Text input\<close>

text \<open>
  Claim C2, as the handler has it. A \<open>text-input\<close> frame is logged and answered
  with one \<open>llm-response\<close> frame to the connection it came from; when that write
  fails, the failure is logged and the connection is closed instead. Nothing else is
  sent: the handler calls no recognition, generation or synthesis stage.
\<close>

theorem text_input_single_response:
  assumes "Type msg = ''text-input''"
  shows "handleMessage c msg s =
           (if write_fails s c
            then s\<lparr>closed := insert c (closed s),
                   logs := logs s @ [LogTextInput (Data msg), LogSendFailed]\<rparr>
            else s\<lparr>sent := sent s @ [(c, llm_response)],
                   logs := logs s @ [LogTextInput (Data msg)]\<rparr>)
       \<and> types_to c (handleMessage c msg s) =
           types_to c s @ (if write_fails s c then [] else [''llm-response''])"
  using assms
  by (simp add: handleMessage_def handler_of_def processTextInput_def sendToClient_eq
      log_printf_def write_fails_def types_to_def frames_to_def llm_response_def)

theorem text_input_single_response_witness:
  "Type text_hello = ''text-input''
   \<and> handleMessage 1 text_hello h0 =
       h0\<lparr>sent := [(1, llm_response)], logs := [LogTextInput (Data text_hello)]\<rparr>
   \<and> types_to 1 (handleMessage 1 text_hello h0) = [''llm-response'']"
proof -
  have h: "Type text_hello = ''text-input''"
    by (simp add: text_hello_def)
  have f: "\<not> write_fails h0 1"
    by (simp add: write_fails_def h0_fields)
  have t: "types_to 1 h0 = []"
    by (simp add: types_to_def frames_to_def h0_fields)
  note r = text_input_single_response [OF h, of 1 h0]
  from r [THEN conjunct1] f
  have a: "handleMessage 1 text_hello h0 =
          h0\<lparr>sent := sent h0 @ [(1, llm_response)],
             logs := logs h0 @ [LogTextInput (Data text_hello)]\<rparr>"
    by simp
  from r [THEN conjunct2] f
  have b: "types_to 1 (handleMessage 1 text_hello h0) = types_to 1 h0 @ [''llm-response'']"
    by simp
  from a have "handleMessage 1 text_hello h0 =
       h0\<lparr>sent := [(1, llm_response)], logs := [LogTextInput (Data text_hello)]\<rparr>"
    by (simp add: h0_fields)
  moreover from b t have "types_to 1 (handleMessage 1 text_hello h0) = [''llm-response'']"
    by simp
  ultimately show ?thesis
    using h by blast
qed

text \<open>
  Claim C2 as stated asks for \<open>llm-partial\<close> frames, one \<open>llm-final\<close>, then
  \<open>tts-chunk\<close> frames and one \<open>tts-done\<close>. The frames sent for the text input
  \<open>hello\<close> do not have that shape.
\<close>

theorem text_input_reply_counterexample:
  "\<not> spec_reply_shape (types_to 1 (handleMessage 1 text_hello h0))"
  by (simp add: spec_reply_shape_def types_to_def frames_to_def handleMessage_def
      handler_of_def text_hello_def processTextInput_def sendToClient_eq log_printf_def
      write_fails_def h0_def NewWebSocketHandler_def llm_response_def)

subsection \<open>Unknown message types\<close>

text \<open>
  Claim C4. A frame whose type has no case in \<open>handleMessage\<close> is logged and has no
  other effect: no frame is written, the clients and the closed connections are as
  before, and the read loop is not left but goes on with the next read.
\<close>

theorem unknown_type_logged_only:
  assumes "Type msg \<notin> set handled_types"
  shows "handleMessage c msg s = s\<lparr>logs := logs s @ [LogUnknownType (Type msg)]\<rparr>
       \<and> sent (handleMessage c msg s) = sent s
       \<and> clients (handleMessage c msg s) = clients s
       \<and> closed (handleMessage c msg s) = closed s
       \<and> read_loop c [Decoded msg] s = (handleMessage c msg s, False)
       \<and> read_loop c (Decoded msg # rs) s = read_loop c rs (handleMessage c msg s)"
  using assms by (simp add: handleMessage_unhandled log_printf_def)

theorem unknown_type_logged_only_witness:
  "Type foo_frame \<notin> set handled_types
   \<and> handleMessage 1 foo_frame h0 = h0\<lparr>logs := [LogUnknownType ''foo'']\<rparr>
   \<and> sent (handleMessage 1 foo_frame h0) = []
   \<and> read_loop 1 [Decoded foo_frame] h0 = (handleMessage 1 foo_frame h0, False)"
proof -
  have h: "Type foo_frame \<notin> set handled_types"
    by (simp add: foo_frame_def handled_types_def)
  from unknown_type_logged_only [OF h, of 1 h0 "[]"] h show ?thesis
    by (simp add: foo_frame_def h0_fields)
qed

subsection \<open>Frames that do not decode\<close>

text \<open>
  Claim C5, as the handler has it. A read that fails because the frame does not decode
  is logged and ends the read loop: the reads after it are not handled, the connection is
  unregistered and it is closed.
\<close>

theorem undecodable_frame_closes:
  "read_loop c (Undecodable # rs) s = (log_printf LogReadFailed s, True)
   \<and> HandleWebSocket (Some c) (map Decoded ms @ Undecodable # rs) s =
       HandleWebSocket (Some c) (map Decoded ms @ [Undecodable]) s
   \<and> c \<in> closed (HandleWebSocket (Some c) (map Decoded ms @ Undecodable # rs) s)
   \<and> clients (HandleWebSocket (Some c) (map Decoded ms @ Undecodable # rs) s) c = None"
proof -
  define s1 where "s1 = foldl (\<lambda>s m. handleMessage c m s) (register c s) ms"
  have loop: "read_loop c (map Decoded ms @ Undecodable # rest) (register c s) =
      (log_printf LogReadFailed s1, True)" for rest
    by (simp add: read_loop_decoded_prefix s1_def)
  have left: "HandleWebSocket (Some c) (map Decoded ms @ Undecodable # rest) s =
      conn_Close c (unregister c (log_printf LogReadFailed s1))" for rest
    by (simp add: HandleWebSocket_def loop)
  have "HandleWebSocket (Some c) (map Decoded ms @ Undecodable # rs) s =
       HandleWebSocket (Some c) (map Decoded ms @ [Undecodable]) s"
    by (simp only: left)
  moreover have "c \<in> closed (conn_Close c (unregister c (log_printf LogReadFailed s1)))"
    by (simp add: conn_Close_def)
  moreover have "clients (conn_Close c (unregister c (log_printf LogReadFailed s1))) c = None"
    by (simp add: conn_Close_def unregister_gone)
  ultimately show ?thesis
    by (simp add: left)
qed

text \<open>
  Claim C5 as stated has the connection stay open. After an undecodable frame the
  connection is closed and gone from the clients, and the text input that follows it is
  not answered.
\<close>

theorem undecodable_frame_counterexample:
  "1 \<in> closed (HandleWebSocket (Some 1) [Undecodable, Decoded text_hello] h0)
   \<and> clients (HandleWebSocket (Some 1) [Undecodable, Decoded text_hello] h0) 1 = None
   \<and> sent (HandleWebSocket (Some 1) [Undecodable, Decoded text_hello] h0) = []"
  by (auto simp: HandleWebSocket_def conn_Close_def unregister_def register_def log_printf_def
      Let_def h0_fields)

subsection \<open>Broadcast\<close>

text \<open>
  Claim C6. A broadcast visits every client once. With \<open>F\<close> the clients on which
  the write fails, the clients left are those not in \<open>F\<close>, the connections closed are
  those of \<open>F\<close>, every client not in \<open>F\<close> has the message as its newest frame
  and no client in \<open>F\<close> has a new frame.
\<close>

theorem broadcast_isolates_failures:
  assumes "distinct order" and "set order = dom (clients s)"
  shows "dom (clients (handleClients_step (Broadcast m order) s)) =
           dom (clients s) - {c. write_fails s c}
       \<and> closed (handleClients_step (Broadcast m order) s) =
           closed s \<union> {c \<in> dom (clients s). write_fails s c}
       \<and> (\<forall>c \<in> dom (clients s).
            frames_to c (handleClients_step (Broadcast m order) s) =
              frames_to c s @ (if write_fails s c then [] else [m])
            \<and> (clients (handleClients_step (Broadcast m order) s) c =
                 (if write_fails s c then None else clients s c)))"
proof -
  note e = broadcast_loop_effect [OF assms(1), of m s]
  have "dom (clients (broadcast_loop m order s)) = dom (clients s) - {c. write_fails s c}"
    using e assms(2) by (auto simp: dom_def split: if_splits)
  moreover have "closed (broadcast_loop m order s) =
           closed s \<union> {c \<in> dom (clients s). write_fails s c}"
    using e assms(2) by simp
  moreover have "frames_to c (broadcast_loop m order s) =
              frames_to c s @ (if write_fails s c then [] else [m])
            \<and> (clients (broadcast_loop m order s) c =
                 (if write_fails s c then None else clients s c))"
    if "c \<in> dom (clients s)" for c
    using e assms(2) that by simp
  ultimately show ?thesis by simp
qed

theorem broadcast_isolates_failures_witness:
  "distinct [3, 1, 2::nat] \<and> set [3, 1, 2] = dom (clients h3)
   \<and> dom (clients (handleClients_step (Broadcast foo_frame [3, 1, 2]) h3)) = {1, 3}
   \<and> closed (handleClients_step (Broadcast foo_frame [3, 1, 2]) h3) = {2}
   \<and> frames_to 1 (handleClients_step (Broadcast foo_frame [3, 1, 2]) h3) = [foo_frame]
   \<and> frames_to 2 (handleClients_step (Broadcast foo_frame [3, 1, 2]) h3) = []
   \<and> frames_to 3 (handleClients_step (Broadcast foo_frame [3, 1, 2]) h3) = [foo_frame]"
proof -
  have d: "distinct [3, 1, 2::nat]" by simp
  have o: "set [3, 1, 2] = dom (clients h3)"
    by (auto simp: h3_fields)
  have w: "{c. write_fails h3 c} = {2}"
    by (auto simp: write_fails_def h3_fields)
  have f: "frames_to c h3 = []" for c
    by (simp add: frames_to_def h3_fields)
  have wf: "\<not> write_fails h3 1" "write_fails h3 2" "\<not> write_fails h3 3"
    by (simp_all add: write_fails_def h3_fields)
  have m: "1 \<in> dom (clients h3)" "2 \<in> dom (clients h3)" "3 \<in> dom (clients h3)"
    by (simp_all add: h3_fields)
  note b = broadcast_isolates_failures [OF d o, of foo_frame]
  have "dom (clients h3) - {c. write_fails h3 c} = {1, 3}"
    unfolding w h3_fields by auto
  with b [THEN conjunct1]
  have 1: "dom (clients (handleClients_step (Broadcast foo_frame [3, 1, 2]) h3)) = {1, 3}"
    by (rule trans)
  have "closed h3 \<union> {c \<in> dom (clients h3). write_fails h3 c} = {2}"
    using w by (auto simp: h3_fields)
  with b [THEN conjunct2, THEN conjunct1]
  have 2: "closed (handleClients_step (Broadcast foo_frame [3, 1, 2]) h3) = {2}"
    by (rule trans)
  note b3 = b [THEN conjunct2, THEN conjunct2]
  from b3 [THEN bspec, OF m(1), THEN conjunct1] wf(1)
  have 3: "frames_to 1 (handleClients_step (Broadcast foo_frame [3, 1, 2]) h3) = [foo_frame]"
    by (simp add: f)
  from b3 [THEN bspec, OF m(2), THEN conjunct1] wf(2)
  have 4: "frames_to 2 (handleClients_step (Broadcast foo_frame [3, 1, 2]) h3) = []"
    by (simp add: f)
  from b3 [THEN bspec, OF m(3), THEN conjunct1] wf(3)
  have 5: "frames_to 3 (handleClients_step (Broadcast foo_frame [3, 1, 2]) h3) = [foo_frame]"
    by (simp add: f)
  from d o 1 2 3 4 5 show ?thesis
    by blast
qed

subsection \<open>Registering and unregistering\<close>

text \<open>
  Claim C7, as the handler has it. Registering a connection that is registered leaves
  the set of clients as it is; unregistering one that is not registered only logs; and
  registering and then unregistering a connection that was not registered gives back the
  clients there were before.
\<close>

theorem membership_idempotent:
  "(c \<in> dom (clients s) \<longrightarrow> dom (clients (register c s)) = dom (clients s))
   \<and> (c \<notin> dom (clients s) \<longrightarrow>
        unregister c s = log_printf (LogDisconnected (card (dom (clients s)))) s
        \<and> dom (clients (unregister c s)) = dom (clients s)
        \<and> clients (unregister c (register c s)) = clients s)"
proof -
  have "dom (clients (register c s)) = dom (clients s)" if "c \<in> dom (clients s)"
    using that by (auto simp: register_def log_printf_def Let_def)
  moreover have "unregister c s = log_printf (LogDisconnected (card (dom (clients s)))) s"
    if "c \<notin> dom (clients s)"
    using that by (auto simp: unregister_def Let_def)
  moreover have "clients (unregister c (register c s)) = clients s"
    if "c \<notin> dom (clients s)"
    using that
    by (auto simp: register_def unregister_def log_printf_def conn_Close_def Let_def)
  ultimately show ?thesis
    by (simp add: log_printf_def)
qed

theorem membership_idempotent_witness:
  "1 \<in> dom (clients (register 1 h0))
   \<and> dom (clients (register 1 (register 1 h0))) = dom (clients (register 1 h0))
   \<and> 2 \<notin> dom (clients h0)
   \<and> dom (clients (unregister 2 h0)) = dom (clients h0)
   \<and> clients (unregister 2 (register 2 h0)) = clients h0"
proof -
  have p: "1 \<in> dom (clients (register 1 h0))"
    by (simp add: register_def log_printf_def Let_def)
  have a: "2 \<notin> dom (clients h0)"
    by (simp add: h0_fields)
  from membership_idempotent [of 1 "register 1 h0"] p
  have "dom (clients (register 1 (register 1 h0))) = dom (clients (register 1 h0))"
    by blast
  moreover from membership_idempotent [of 2 h0] a
  have "dom (clients (unregister 2 h0)) = dom (clients h0)
      \<and> clients (unregister 2 (register 2 h0)) = clients h0"
    by blast
  ultimately show ?thesis
    using p a by blast
qed

text \<open>
  Claim C7 as stated has the round trip restore every state. When the connection is
  registered already, registering and unregistering it leaves it unregistered.
\<close>

theorem membership_roundtrip_counterexample:
  "dom (clients (register 1 h0)) = {1}
   \<and> dom (clients (unregister 1 (register 1 (register 1 h0)))) = {}"
  by (auto simp: register_def unregister_def log_printf_def conn_Close_def Let_def h0_fields)

subsection \<open>Dispatch\<close>

text \<open>
  Claim C8, as the handler has it. A frame of type \<open>text-input\<close>,
  \<open>mic-audio-data\<close>, \<open>fetch-configs\<close> or \<open>request-init-config\<close> is handled by
  the one handler of its type, \<open>processTextInput\<close>, \<open>processAudioData\<close>,
  \<open>sendConfigs\<close> or \<open>sendInitConfig\<close>, each with its own effect on the state; a
  frame of any of the other eleven types of the specification takes the default branch,
  which logs the type as unknown.
\<close>

theorem dispatch_four_types:
  "handleMessage c \<lparr>Type = ''text-input'', Data = d\<rparr> s = processTextInput c d s
   \<and> handleMessage c \<lparr>Type = ''mic-audio-data'', Data = d\<rparr> s = ws_processAudioData d s
   \<and> handleMessage c \<lparr>Type = ''fetch-configs'', Data = d\<rparr> s = sendConfigs c s
   \<and> handleMessage c \<lparr>Type = ''request-init-config'', Data = d\<rparr> s = sendInitConfig c s
   \<and> processTextInput c d s =
       (if write_fails s c
        then s\<lparr>closed := insert c (closed s),
               logs := logs s @ [LogTextInput d, LogSendFailed]\<rparr>
        else s\<lparr>sent := sent s @ [(c, llm_response)], logs := logs s @ [LogTextInput d]\<rparr>)
   \<and> ws_processAudioData d s = s\<lparr>logs := logs s @ [LogAudioData]\<rparr>
   \<and> sendConfigs c s =
       (if write_fails s c
        then s\<lparr>closed := insert c (closed s), logs := logs s @ [LogSendFailed]\<rparr>
        else s\<lparr>sent := sent s @ [(c, configs_response (config s))]\<rparr>)
   \<and> sendInitConfig c s =
       (if write_fails s c
        then s\<lparr>closed := insert c (closed s), logs := logs s @ [LogSendFailed]\<rparr>
        else s\<lparr>sent := sent s @ [(c, init_config_response)]\<rparr>)
   \<and> map handler_of spec_inbound_types =
       [ProcessAudioData, DefaultLog, ProcessTextInput, DefaultLog, DefaultLog, DefaultLog,
        DefaultLog, DefaultLog, DefaultLog, DefaultLog, DefaultLog, DefaultLog, DefaultLog,
        SendInitConfig, SendConfigs]
   \<and> (\<forall>t \<in> set spec_inbound_types - set handled_types.
         handleMessage c \<lparr>Type = t, Data = d\<rparr> s = s\<lparr>logs := logs s @ [LogUnknownType t]\<rparr>)"
proof -
  have four: "handleMessage c \<lparr>Type = ''text-input'', Data = d\<rparr> s = processTextInput c d s"
    "handleMessage c \<lparr>Type = ''mic-audio-data'', Data = d\<rparr> s = ws_processAudioData d s"
    "handleMessage c \<lparr>Type = ''fetch-configs'', Data = d\<rparr> s = sendConfigs c s"
    "handleMessage c \<lparr>Type = ''request-init-config'', Data = d\<rparr> s = sendInitConfig c s"
    by (simp_all add: handleMessage_def handler_of_def)
  have effects: "processTextInput c d s =
       (if write_fails s c
        then s\<lparr>closed := insert c (closed s),
               logs := logs s @ [LogTextInput d, LogSendFailed]\<rparr>
        else s\<lparr>sent := sent s @ [(c, llm_response)], logs := logs s @ [LogTextInput d]\<rparr>)"
    "ws_processAudioData d s = s\<lparr>logs := logs s @ [LogAudioData]\<rparr>"
    "sendConfigs c s =
       (if write_fails s c
        then s\<lparr>closed := insert c (closed s), logs := logs s @ [LogSendFailed]\<rparr>
        else s\<lparr>sent := sent s @ [(c, configs_response (config s))]\<rparr>)"
    "sendInitConfig c s =
       (if write_fails s c
        then s\<lparr>closed := insert c (closed s), logs := logs s @ [LogSendFailed]\<rparr>
        else s\<lparr>sent := sent s @ [(c, init_config_response)]\<rparr>)"
    by (simp_all add: processTextInput_def ws_processAudioData_def sendConfigs_def
        sendInitConfig_def sendToClient_eq log_printf_def write_fails_def)
  have tags: "map handler_of spec_inbound_types =
     [ProcessAudioData, DefaultLog, ProcessTextInput, DefaultLog, DefaultLog, DefaultLog,
      DefaultLog, DefaultLog, DefaultLog, DefaultLog, DefaultLog, DefaultLog, DefaultLog,
      SendInitConfig, SendConfigs]"
    by (simp add: spec_inbound_types_def handler_of_def)
  have rest: "handleMessage c \<lparr>Type = t, Data = d\<rparr> s = s\<lparr>logs := logs s @ [LogUnknownType t]\<rparr>"
    if "t \<in> set spec_inbound_types - set handled_types" for t
    using that handleMessage_unhandled [of "\<lparr>Type = t, Data = d\<rparr>" c s]
    by (simp add: log_printf_def)
  from four effects tags rest show ?thesis by blast
qed

theorem dispatch_four_types_witness:
  "handleMessage 1 mic_frame h0 = h0\<lparr>logs := [LogAudioData]\<rparr>
   \<and> handleMessage 1 \<lparr>Type = ''text-input'', Data = GNil\<rparr> h0 =
       h0\<lparr>sent := [(1, llm_response)], logs := [LogTextInput GNil]\<rparr>
   \<and> handleMessage 1 \<lparr>Type = ''fetch-configs'', Data = GNil\<rparr> h0 =
       h0\<lparr>sent := [(1, configs_response default_Config)]\<rparr>
   \<and> handleMessage 1 \<lparr>Type = ''request-init-config'', Data = GNil\<rparr> h0 =
       h0\<lparr>sent := [(1, init_config_response)]\<rparr>
   \<and> ''heartbeat'' \<in> set spec_inbound_types - set handled_types
   \<and> handleMessage 1 heartbeat_frame h0 = h0\<lparr>logs := [LogUnknownType ''heartbeat'']\<rparr>"
proof -
  note T = dispatch_four_types [of 1 GNil h0]
  have w: "\<not> write_fails h0 1"
    by (simp add: write_fails_def h0_fields)
  have cfg: "config h0 = default_Config"
    by (simp add: h0_def NewWebSocketHandler_def)
  have h: "''heartbeat'' \<in> set spec_inbound_types - set handled_types"
    by (simp add: spec_inbound_types_def handled_types_def)
  from T have "handleMessage 1 \<lparr>Type = ''mic-audio-data'', Data = GNil\<rparr> h0 =
      h0\<lparr>logs := logs h0 @ [LogAudioData]\<rparr>"
    by (elim conjE) (erule trans, assumption)
  then have 1: "handleMessage 1 mic_frame h0 = h0\<lparr>logs := [LogAudioData]\<rparr>"
    by (simp add: mic_frame_def h0_fields)
  from T have "handleMessage 1 \<lparr>Type = ''text-input'', Data = GNil\<rparr> h0 =
       (if write_fails h0 1
        then h0\<lparr>closed := insert 1 (closed h0),
               logs := logs h0 @ [LogTextInput GNil, LogSendFailed]\<rparr>
        else h0\<lparr>sent := sent h0 @ [(1, llm_response)], logs := logs h0 @ [LogTextInput GNil]\<rparr>)"
    by (elim conjE) (erule trans, assumption)
  with w have 2: "handleMessage 1 \<lparr>Type = ''text-input'', Data = GNil\<rparr> h0 =
       h0\<lparr>sent := [(1, llm_response)], logs := [LogTextInput GNil]\<rparr>"
    by (simp add: h0_fields)
  from T have "handleMessage 1 \<lparr>Type = ''fetch-configs'', Data = GNil\<rparr> h0 =
       (if write_fails h0 1
        then h0\<lparr>closed := insert 1 (closed h0), logs := logs h0 @ [LogSendFailed]\<rparr>
        else h0\<lparr>sent := sent h0 @ [(1, configs_response (config h0))]\<rparr>)"
    by (elim conjE) (erule trans, assumption)
  with w have 3: "handleMessage 1 \<lparr>Type = ''fetch-configs'', Data = GNil\<rparr> h0 =
       h0\<lparr>sent := [(1, configs_response default_Config)]\<rparr>"
    by (simp add: h0_fields cfg)
  from T have "handleMessage 1 \<lparr>Type = ''request-init-config'', Data = GNil\<rparr> h0 =
       (if write_fails h0 1
        then h0\<lparr>closed := insert 1 (closed h0), logs := logs h0 @ [LogSendFailed]\<rparr>
        else h0\<lparr>sent := sent h0 @ [(1, init_config_response)]\<rparr>)"
    by (elim conjE) (erule trans, assumption)
  with w have 4: "handleMessage 1 \<lparr>Type = ''request-init-config'', Data = GNil\<rparr> h0 =
       h0\<lparr>sent := [(1, init_config_response)]\<rparr>"
    by (simp add: h0_fields)
  from T h have "handleMessage 1 \<lparr>Type = ''heartbeat'', Data = GNil\<rparr> h0 =
      h0\<lparr>logs := logs h0 @ [LogUnknownType ''heartbeat'']\<rparr>"
    by blast
  then have 5: "handleMessage 1 heartbeat_frame h0 = h0\<lparr>logs := [LogUnknownType ''heartbeat'']\<rparr>"
    by (simp add: heartbeat_frame_def h0_fields)
  from 1 2 3 4 h 5 show ?thesis by blast
qed

text \<open>
  Claim C8 as stated gives each of the fifteen types a handler keyed by it. A
  \<open>heartbeat\<close> frame is handled by the default branch, as is a frame of the type
  \<open>foo\<close> that the specification does not list.
\<close>

theorem dispatch_counterexample:
  "''heartbeat'' \<in> set spec_inbound_types
   \<and> handler_of ''heartbeat'' = DefaultLog
   \<and> handler_of ''foo'' = DefaultLog
   \<and> handleMessage 1 heartbeat_frame h0 = h0\<lparr>logs := [LogUnknownType ''heartbeat'']\<rparr>"
  by (simp add: spec_inbound_types_def handler_of_def handleMessage_def heartbeat_frame_def
      log_printf_def h0_fields)

section \<open>Properties of the audio handler\<close>







end
